theory Spec2Isabelle
  imports Main
begin

section \<open>Python primitives used by \<open>geomdl/exchange/obj.py\<close>\<close>

text \<open>
  Text is modelled as \<open>string\<close> (a list of 8-bit characters); the model covers ASCII
  input. The exceptions the module can raise are values of \<open>error\<close>: the module's
  own \<open>GeomdlError(message)\<close>, and the built-in \<open>IndexError\<close> (list index out
  of range) and \<open>ValueError\<close> (\<open>int()\<close> of a token that is not an integer).
\<close>

datatype error = GeomdlError string | IndexError | ValueError

text \<open>\<open>str.isspace\<close> on one ASCII character: tab, line feed, vertical tab, form
  feed, carriage return, the four separators \<open>0x1C..0x1F\<close>, and the space.\<close>

definition isspace :: "char \<Rightarrow> bool" where
  "isspace c = (c = CHR 0x09 \<or> c = CHR 0x0A \<or> c = CHR 0x0B \<or> c = CHR 0x0C \<or> c = CHR 0x0D
     \<or> c = CHR 0x1C \<or> c = CHR 0x1D \<or> c = CHR 0x1E \<or> c = CHR 0x1F \<or> c = CHR 0x20)"

text \<open>\<open>s.strip()\<close>: drop leading and trailing whitespace.\<close>

definition strip :: "string \<Rightarrow> string" where
  "strip s = rev (dropWhile isspace (rev (dropWhile isspace s)))"

text \<open>\<open>s.split(sep)\<close> with an explicit one-character separator: every
  occurrence of \<open>sep\<close> ends a field, so adjacent separators give empty fields and
  the empty string gives one empty field.\<close>

fun split :: "char \<Rightarrow> string \<Rightarrow> string list" where
  "split sep [] = [[]]"
| "split sep (c # cs) =
     (if c = sep then [] # split sep cs
      else (case split sep cs of
              [] \<Rightarrow> [[c]]
            | w # ws \<Rightarrow> (c # w) # ws))"

text \<open>\<open>xs[i]\<close>: a negative index counts from the end; out of range raises
  \<open>IndexError\<close>.\<close>

definition getitem :: "'a list \<Rightarrow> int \<Rightarrow> error + 'a" where
  "getitem xs i =
     (let n = int (length xs);
          j = (if i < 0 then i + n else i)
      in if 0 \<le> j \<and> j < n then Inr (xs ! nat j) else Inl IndexError)"

text \<open>\<open>int(s)\<close> on a string: surrounding whitespace is ignored, one sign is
  allowed, then decimal digits, with single underscores allowed between digits.
  Anything else raises \<open>ValueError\<close>.\<close>

definition isdigit :: "char \<Rightarrow> bool" where
  "isdigit c = (48 \<le> (of_char c :: nat) \<and> (of_char c :: nat) \<le> 57)"

definition digit_val :: "char \<Rightarrow> int" where
  "digit_val c = int (of_char c) - 48"

fun digits_ok :: "string \<Rightarrow> bool" where
  "digits_ok [] = False"
| "digits_ok [c] = isdigit c"
| "digits_ok (c # d # cs) =
     (isdigit c \<and> (if d = CHR ''_'' then digits_ok cs else digits_ok (d # cs)))"

definition digits_val :: "string \<Rightarrow> int" where
  "digits_val s = foldl (\<lambda>acc c. 10 * acc + digit_val c) 0 (filter (\<lambda>c. c \<noteq> CHR ''_'') s)"

definition py_int :: "string \<Rightarrow> error + int" where
  "py_int s =
     (let t = strip s in
      case t of
        [] \<Rightarrow> Inl ValueError
      | c # r \<Rightarrow>
          if c = CHR ''-'' then (if digits_ok r then Inr (- digits_val r) else Inl ValueError)
          else if c = CHR ''+'' then (if digits_ok r then Inr (digits_val r) else Inl ValueError)
          else (if digits_ok t then Inr (digits_val t) else Inl ValueError))"

text \<open>\<open>str(n)\<close> on an integer: decimal digits, with a minus sign when negative.\<close>

definition digit_char :: "nat \<Rightarrow> char" where
  "digit_char d = char_of (48 + d)"

fun str_nat :: "nat \<Rightarrow> string" where
  "str_nat n = (if n < 10 then [digit_char n] else str_nat (n div 10) @ [digit_char (n mod 10)])"

declare str_nat.simps [simp del]

definition str_int :: "int \<Rightarrow> string" where
  "str_int i = (if i < 0 then CHR ''-'' # str_nat (nat (- i)) else str_nat (nat i))"

section \<open>The entity model\<close>

text \<open>
  Modelled from the spec: the module \<open>entity\<close> (classes \<open>Vertex\<close>,
  \<open>Triangle\<close>, \<open>Face\<close>) is not part of the sources at hand. Each entity is
  the value its constructor call builds: the positional arguments in order, and the
  \<open>id\<close> keyword. \<open>import_obj\<close> hands \<open>Vertex\<close> the coordinate tokens of
  the line as they stand (strings); their conversion to floating point happens inside
  \<open>entity\<close> and is not modelled.
\<close>

datatype vertex = Vertex (vertex_data: "string list") (vertex_id: int)

datatype triangle = Triangle (triangle_vertices: "vertex list") (triangle_id: int)

datatype face = Face (face_triangles: "triangle list") (face_id: int)

section \<open>\<open>import_obj\<close>\<close>

text \<open>The local variables of the loop of \<open>import_obj\<close>, as one state record.\<close>

record import_state =
  on_face :: bool
  vertices :: "vertex list"
  triangles :: "triangle list"
  faces :: "face list"
  vert_idx :: int
  tri_idx :: int
  face_idx :: int

definition init_state :: import_state where
  "init_state = \<lparr>on_face = False, vertices = [], triangles = [], faces = [],
                  vert_idx = 1, tri_idx = 1, face_idx = 1\<rparr>"

text \<open>\<open>[vertices[int(fidx) - 1] for fidx in data[1:]]\<close>: left to right, the first
  token that fails aborts the comprehension.\<close>

fun resolve :: "vertex list \<Rightarrow> string list \<Rightarrow> error + vertex list" where
  "resolve vs [] = Inr []"
| "resolve vs (fidx # rest) =
     (case py_int fidx of
        Inl e \<Rightarrow> Inl e
      | Inr i \<Rightarrow>
          (case getitem vs (i - 1) of
             Inl e \<Rightarrow> Inl e
           | Inr v \<Rightarrow>
               (case resolve vs rest of
                  Inl e \<Rightarrow> Inl e
                | Inr r \<Rightarrow> Inr (v # r))))"

text \<open>\<open>carr.strip().split(" ")\<close> followed by \<open>[d.strip() for d in data]\<close>.\<close>

definition tokens :: "string \<Rightarrow> string list" where
  "tokens carr = map strip (split CHR '' '' (strip carr))"

text \<open>The body of \<open>if data[0] == "v"\<close>.\<close>

definition on_v :: "import_state \<Rightarrow> string list \<Rightarrow> import_state" where
  "on_v st args =
     (let st1 = (if on_face st
                 then st\<lparr>on_face := False,
                         faces := faces st @ [Face (triangles st) (face_idx st)],
                         face_idx := face_idx st + 1,
                         vertices := [], triangles := [],
                         vert_idx := 1, tri_idx := 1\<rparr>
                 else st)
      in st1\<lparr>vertices := vertices st1 @ [Vertex args (vert_idx st1)],
              vert_idx := vert_idx st1 + 1\<rparr>)"

text \<open>The body of \<open>if data[0] == "f"\<close>.\<close>

definition on_f :: "import_state \<Rightarrow> string list \<Rightarrow> error + import_state" where
  "on_f st args =
     (case resolve (vertices st) args of
        Inl e \<Rightarrow> Inl e
      | Inr vs \<Rightarrow>
          Inr (st\<lparr>on_face := True,
                  triangles := triangles st @ [Triangle vs (tri_idx st)],
                  tri_idx := tri_idx st + 1\<rparr>))"

text \<open>One iteration of \<open>for carr in content_arr\<close>, on the tokens of the line.\<close>

definition step_data :: "import_state \<Rightarrow> string list \<Rightarrow> error + import_state" where
  "step_data st data =
     (case data of
        [] \<Rightarrow> Inl IndexError
      | d0 # args \<Rightarrow>
          (let st1 = (if d0 = ''v'' then on_v st args else st)
           in if d0 = ''f'' then on_f st1 args else Inr st1))"

definition step :: "import_state \<Rightarrow> string \<Rightarrow> error + import_state" where
  "step st carr = step_data st (tokens carr)"

fun run :: "import_state \<Rightarrow> string list \<Rightarrow> error + import_state" where
  "run st [] = Inr st"
| "run st (carr # rest) =
     (case step st carr of
        Inl e \<Rightarrow> Inl e
      | Inr st' \<Rightarrow> run st' rest)"

text \<open>\<open>if triangles: faces.append(Face(*triangles, id=face_idx))\<close>.\<close>

definition final_faces :: "import_state \<Rightarrow> face list" where
  "final_faces st =
     (if triangles st \<noteq> [] then faces st @ [Face (triangles st) (face_idx st)]
      else faces st)"

text \<open>The import of a text already read: everything after \<open>read_file\<close>, with
  the callback the caller gave (the identity by default).\<close>

definition import_lines :: "string list \<Rightarrow> error + face list" where
  "import_lines content_arr =
     (case run init_state content_arr of
        Inl e \<Rightarrow> Inl e
      | Inr st \<Rightarrow> Inr (final_faces st))"

definition import_obj_str :: "(face list \<Rightarrow> 'a) \<Rightarrow> string \<Rightarrow> error + 'a" where
  "import_obj_str callback_func content =
     (case import_lines (split CHR 0x0A content) of
        Inl e \<Rightarrow> Inl e
      | Inr fs \<Rightarrow> Inr (callback_func fs))"

definition default_callback :: "face list \<Rightarrow> face list" where
  "default_callback face_list = face_list"

text \<open>\<open>import_obj\<close> itself; \<open>exc_helpers.read_file\<close> is a parameter (it is
  not part of the sources at hand), and may fail with an error of its own.\<close>

definition import_obj ::
  "('fn \<Rightarrow> error + string) \<Rightarrow> (face list \<Rightarrow> 'a) \<Rightarrow> 'fn \<Rightarrow> error + 'a" where
  "import_obj read_file callback_func file_name =
     (case read_file file_name of
        Inl e \<Rightarrow> Inl e
      | Inr content \<Rightarrow> import_obj_str callback_func content)"

section \<open>\<open>export_obj_str\<close>\<close>

text \<open>
  Modelled from the spec: the tessellator \<open>tessellate.make_triangle_mesh\<close>, the
  normal evaluator \<open>exc_helpers.surface_normal\<close> and the classes of the surfaces
  and of the mesh are not part of the sources at hand. A mesh vertex has a position
  \<open>x\<close>, \<open>y\<close>, \<open>z\<close> and a parametric coordinate \<open>uv\<close>; a mesh triangle
  is the triple of 0-based vertex indices that \<open>t.data\<close> returns; the normal
  evaluator returns a position and a normal vector. Coordinates are of an abstract
  type \<open>'c\<close> (floating point in the source) and \<open>str\<close> on a coordinate is the
  parameter \<open>str_float\<close>.
\<close>

datatype 'c mesh_vertex =
  MeshVertex (vert_x: 'c) (vert_y: 'c) (vert_z: 'c) (vert_uv: "'c \<times> 'c")

type_synonym mesh_triangle = "int \<times> int \<times> int"

type_synonym 'c mesh = "'c mesh_vertex list \<times> mesh_triangle list"

record 'c surface =
  evalpts :: "'c list list"
  sample_size_u :: int
  sample_size_v :: int

text \<open>The argument \<open>surface\<close>: one surface or a container of surfaces. Iterating
  over it yields \<open>members\<close>; \<open>pdimension\<close> is its parametric dimension.\<close>

record ('c, 'z) geometry =
  pdimension :: int
  members :: "('c, 'z) surface_scheme list"

text \<open>The keyword arguments the function reads; \<open>None\<close> is an absent keyword. The
  value of \<open>vertex_spacing\<close> is the integer that \<open>int\<close> makes of the argument.\<close>

record kwargs =
  kw_vertex_spacing :: "int option"
  kw_vertex_normals :: "bool option"
  kw_parametric_vertices :: "bool option"

text \<open>The collaborators, as the source calls them: the tessellator with three
  arguments, the normal evaluator with three.\<close>

record ('c, 'z) collaborators =
  make_triangle_mesh :: "'c list list \<Rightarrow> int \<Rightarrow> int \<Rightarrow> 'c mesh"
  surface_normal ::
    "('c, 'z) surface_scheme \<Rightarrow> 'c \<times> 'c \<Rightarrow> bool \<Rightarrow> ('c \<times> 'c \<times> 'c) \<times> ('c \<times> 'c \<times> 'c)"
  str_float :: "'c \<Rightarrow> string"

text \<open>\<open>kwargs.get(key, default)\<close>.\<close>

definition kwargs_get :: "'a option \<Rightarrow> 'a \<Rightarrow> 'a" where
  "kwargs_get v d = (case v of None \<Rightarrow> d | Some a \<Rightarrow> a)"

text \<open>The lists of lines and the offset that the loop over the surfaces updates.\<close>

record export_state =
  str_v :: "string list"
  str_vn :: "string list"
  str_vp :: "string list"
  str_f :: "string list"
  vertex_offset :: int

definition v_line :: "('c \<Rightarrow> string) \<Rightarrow> 'c mesh_vertex \<Rightarrow> string" where
  "v_line str vert =
     ''v '' @ str (vert_x vert) @ '' '' @ str (vert_y vert) @ '' '' @ str (vert_z vert) @ [CHR 0x0A]"

definition vp_line :: "('c \<Rightarrow> string) \<Rightarrow> 'c mesh_vertex \<Rightarrow> string" where
  "vp_line str vert =
     ''vp '' @ str (fst (vert_uv vert)) @ '' '' @ str (snd (vert_uv vert)) @ [CHR 0x0A]"

definition vn_line ::
  "('c \<Rightarrow> string) \<Rightarrow> ('c \<times> 'c \<times> 'c) \<times> ('c \<times> 'c \<times> 'c) \<Rightarrow> string" where
  "vn_line str sn =
     (case snd sn of (n0, n1, n2) \<Rightarrow>
        ''vn '' @ str n0 @ '' '' @ str n1 @ '' '' @ str n2 @ [CHR 0x0A])"

definition f_line :: "int \<Rightarrow> mesh_triangle \<Rightarrow> string" where
  "f_line offset vl =
     (case vl of (vl0, vl1, vl2) \<Rightarrow>
        ''f '' @ str_int (vl0 + 1 + offset) @ '' '' @
                 str_int (vl1 + 1 + offset) @ '' '' @
                 str_int (vl2 + 1 + offset) @ [CHR 0x0A])"

text \<open>The body of \<open>for srf in surface\<close>.\<close>

definition export_srf ::
  "('c, 'z) collaborators \<Rightarrow> bool \<Rightarrow> bool \<Rightarrow> export_state \<Rightarrow>
     ('c, 'z) surface_scheme \<Rightarrow> export_state" where
  "export_srf ext include_vertex_normal include_param_vertex st srf =
     (case make_triangle_mesh ext (evalpts srf) (sample_size_u srf) (sample_size_v srf) of
        (verts, tris) \<Rightarrow>
          (let st1 = st\<lparr>str_v := str_v st @ map (v_line (str_float ext)) verts\<rparr>;
               st2 = (if include_param_vertex
                      then st1\<lparr>str_vp := str_vp st1 @ map (vp_line (str_float ext)) verts\<rparr>
                      else st1);
               st3 = (if include_vertex_normal
                      then st2\<lparr>str_vn := str_vn st2 @
                             map (\<lambda>vert. vn_line (str_float ext)
                                    (surface_normal ext srf (vert_uv vert) True)) verts\<rparr>
                      else st2);
               st4 = st3\<lparr>str_f := str_f st3 @ map (f_line (vertex_offset st3)) tris\<rparr>
           in st4\<lparr>vertex_offset := int (length (str_v st4))\<rparr>))"

definition export_init :: export_state where
  "export_init = \<lparr>str_v = [], str_vn = [], str_vp = [], str_f = [], vertex_offset = 0\<rparr>"

definition export_loop ::
  "('c, 'z) collaborators \<Rightarrow> bool \<Rightarrow> bool \<Rightarrow> export_state \<Rightarrow>
     ('c, 'z) surface_scheme list \<Rightarrow> export_state" where
  "export_loop ext include_vertex_normal include_param_vertex st srfs =
     foldl (export_srf ext include_vertex_normal include_param_vertex) st srfs"

text \<open>The four loops that write the collected lines to the returned string.\<close>

definition assemble :: "export_state \<Rightarrow> string" where
  "assemble st =
     ''# Generated by geomdl'' @ [CHR 0x0A] @
       concat (str_v st) @ concat (str_vn st) @ concat (str_vp st) @ concat (str_f st)"

definition export_obj_str ::
  "('c, 'z) collaborators \<Rightarrow> kwargs \<Rightarrow> ('c, 'z) geometry \<Rightarrow> error + string" where
  "export_obj_str ext kw surface =
     (let vertex_spacing = kwargs_get (kw_vertex_spacing kw) 1;
          include_vertex_normal = kwargs_get (kw_vertex_normals kw) False;
          include_param_vertex = kwargs_get (kw_parametric_vertices kw) False
      in if pdimension surface \<noteq> 2 then Inl (GeomdlError ''Can only export surfaces'')
         else if vertex_spacing < 1
         then Inl (GeomdlError ''Vertex spacing should be bigger than zero'')
         else Inr (assemble (export_loop ext include_vertex_normal include_param_vertex
                               export_init (members surface))))"

section \<open>The blocks of the exported text, as the specification words them\<close>

text \<open>The mesh the tessellator returns for one surface.\<close>

definition mesh_of :: "('c, 'z) collaborators \<Rightarrow> ('c, 'z) surface_scheme \<Rightarrow> 'c mesh" where
  "mesh_of ext srf = make_triangle_mesh ext (evalpts srf) (sample_size_u srf) (sample_size_v srf)"

text \<open>The vertex, parametric-vertex and normal blocks: the lines of all the surfaces, in
  the order of the surfaces, one line per mesh vertex.\<close>

definition v_block :: "('c, 'z) collaborators \<Rightarrow> ('c, 'z) surface_scheme list \<Rightarrow> string list" where
  "v_block ext srfs = concat (map (\<lambda>srf. map (v_line (str_float ext)) (fst (mesh_of ext srf))) srfs)"

definition vp_block :: "('c, 'z) collaborators \<Rightarrow> ('c, 'z) surface_scheme list \<Rightarrow> string list" where
  "vp_block ext srfs = concat (map (\<lambda>srf. map (vp_line (str_float ext)) (fst (mesh_of ext srf))) srfs)"

definition vn_block :: "('c, 'z) collaborators \<Rightarrow> ('c, 'z) surface_scheme list \<Rightarrow> string list" where
  "vn_block ext srfs =
     concat (map (\<lambda>srf. map (\<lambda>vert. vn_line (str_float ext) (surface_normal ext srf (vert_uv vert) True))
                          (fst (mesh_of ext srf))) srfs)"

text \<open>The offset of the surface at position \<open>k\<close>: the number of vertices of the
  surfaces before it.\<close>

definition offset_at :: "('c, 'z) collaborators \<Rightarrow> ('c, 'z) surface_scheme list \<Rightarrow> nat \<Rightarrow> int" where
  "offset_at ext srfs k = int (sum_list (map (\<lambda>srf. length (fst (mesh_of ext srf))) (take k srfs)))"

text \<open>The face block: for each surface in order, one line per mesh triangle, written at
  the offset of the surface.\<close>

definition f_block :: "('c, 'z) collaborators \<Rightarrow> ('c, 'z) surface_scheme list \<Rightarrow> string list" where
  "f_block ext srfs =
     concat (map (\<lambda>k. map (f_line (offset_at ext srfs k)) (snd (mesh_of ext (srfs ! k))))
               [0..<length srfs])"

section \<open>The lines of an OBJ text, as the specification words them\<close>

text \<open>A line is a vertex line or a face line by its leading token (\<open>data[0]\<close>);
  its arguments are the remaining tokens (\<open>data[1:]\<close>). Every other line is
  ignored by the parser.\<close>

definition is_v_line :: "string \<Rightarrow> bool" where
  "is_v_line carr = (case tokens carr of [] \<Rightarrow> False | d0 # _ \<Rightarrow> d0 = ''v'')"

definition is_f_line :: "string \<Rightarrow> bool" where
  "is_f_line carr = (case tokens carr of [] \<Rightarrow> False | d0 # _ \<Rightarrow> d0 = ''f'')"

definition line_args :: "string \<Rightarrow> string list" where
  "line_args carr = tl (tokens carr)"

text \<open>The fields of a line: the line split at every single space, each field stripped, and
  the empty fields at both ends of the line dropped (one empty field is left when there is
  nothing else).\<close>

definition ltrim :: "string list \<Rightarrow> string list" where
  "ltrim xs = (case dropWhile (\<lambda>x. x = []) xs of [] \<Rightarrow> [[]] | y # ys \<Rightarrow> y # ys)"

definition rtrim :: "string list \<Rightarrow> string list" where
  "rtrim xs = (case dropWhile (\<lambda>x. x = []) (rev xs) of [] \<Rightarrow> [[]] | y # ys \<Rightarrow> rev (y # ys))"

definition fields :: "string \<Rightarrow> string list" where
  "fields carr = rtrim (ltrim (map strip (split CHR '' '' carr)))"

text \<open>The vertex buffer a block of vertex lines builds: one vertex per line, numbered
  from 1.\<close>

definition vertex_block :: "string list \<Rightarrow> vertex list" where
  "vertex_block ls = map2 Vertex (map line_args ls) (map int [1..<Suc (length ls)])"

text \<open>A face line resolves against a vertex buffer when each of its index tokens is an
  integer that \<open>vertices[int(fidx) - 1]\<close> accepts.\<close>

definition resolves :: "vertex list \<Rightarrow> string \<Rightarrow> bool" where
  "resolves verts carr = (case resolve verts (line_args carr) of Inl _ \<Rightarrow> False | Inr _ \<Rightarrow> True)"

text \<open>The triangles a block of face lines builds against a vertex buffer: one triangle
  per line, holding the vertices its tokens resolve to, numbered from 1.\<close>

definition triangle_block :: "vertex list \<Rightarrow> string list \<Rightarrow> triangle list \<Rightarrow> bool" where
  "triangle_block verts ls tris =
     (list_all2 (\<lambda>carr t. resolve verts (line_args carr) = Inr (triangle_vertices t)) ls tris \<and>
      map triangle_id tris = map int [1..<Suc (length ls)])"

section \<open>The indices of the face block, as the specification words them\<close>







section \<open>Sample inputs\<close>

text \<open>A flat unit square whose tessellation has 4 vertices and 2 triangles, with
  coordinates written as the text \<open>str\<close> gives for them.\<close>

definition square_mesh :: "string mesh" where
  "square_mesh =
     ([MeshVertex ''0.0'' ''0.0'' ''0.0'' (''0.0'', ''0.0''),
       MeshVertex ''1.0'' ''0.0'' ''0.0'' (''1.0'', ''0.0''),
       MeshVertex ''0.0'' ''1.0'' ''0.0'' (''0.0'', ''1.0''),
       MeshVertex ''1.0'' ''1.0'' ''0.0'' (''1.0'', ''1.0'')],
      [(0, 1, 2), (1, 3, 2)])"

definition square_ext :: "(string, unit) collaborators" where
  "square_ext =
     \<lparr>make_triangle_mesh = (\<lambda>pts u v. square_mesh),
      surface_normal = (\<lambda>srf uv normalize. ((fst uv, snd uv, ''0.0''), (''0.0'', ''0.0'', ''1.0''))),
      str_float = (\<lambda>c. c)\<rparr>"

definition square_srf :: "string surface" where
  "square_srf =
     \<lparr>evalpts = [[''0.0'', ''0.0'', ''0.0''], [''1.0'', ''0.0'', ''0.0''],
                 [''0.0'', ''1.0'', ''0.0''], [''1.0'', ''1.0'', ''0.0'']],
      sample_size_u = 2, sample_size_v = 2\<rparr>"



definition no_kwargs :: kwargs where
  "no_kwargs = \<lparr>kw_vertex_spacing = None, kw_vertex_normals = None,
                 kw_parametric_vertices = None\<rparr>"

section \<open>Lemmas on the export loop\<close>

lemma offset_at_snoc: "k \<le> length srfs \<Longrightarrow> offset_at ext (srfs @ [s]) k = offset_at ext srfs k"
  by (simp add: offset_at_def)

lemma f_block_snoc:
  "f_block ext (srfs @ [s]) =
     f_block ext srfs @ map (f_line (offset_at ext srfs (length srfs))) (snd (mesh_of ext s))"
proof -
  have eq: "map (\<lambda>k. map (f_line (offset_at ext (srfs @ [s]) k)) (snd (mesh_of ext ((srfs @ [s]) ! k))))
          [0..<length srfs] =
        map (\<lambda>k. map (f_line (offset_at ext srfs k)) (snd (mesh_of ext (srfs ! k))))
          [0..<length srfs]"
    by (rule map_cong) (simp_all add: offset_at_snoc nth_append)
  show ?thesis
    by (simp add: f_block_def offset_at_snoc eq)
qed

lemma v_block_snoc:
  "v_block ext (srfs @ [s]) = v_block ext srfs @ map (v_line (str_float ext)) (fst (mesh_of ext s))"
  by (simp add: v_block_def)


lemma export_loop_snoc:
  "export_loop ext n p st (srfs @ [s]) = export_srf ext n p (export_loop ext n p st srfs) s"
  by (simp add: export_loop_def)

lemma export_loop_closed:
  "export_loop ext n p export_init srfs =
     \<lparr>str_v = v_block ext srfs,
      str_vn = (if n then vn_block ext srfs else []),
      str_vp = (if p then vp_block ext srfs else []),
      str_f = f_block ext srfs,
      vertex_offset = offset_at ext srfs (length srfs)\<rparr>"
proof (induction srfs rule: rev_induct)
  case Nil
  show ?case
    by (simp add: export_loop_def export_init_def v_block_def vn_block_def vp_block_def
        f_block_def offset_at_def)
next
  case (snoc s srfs)
  obtain verts tris where m: "mesh_of ext s = (verts, tris)"
    by (cases "mesh_of ext s")
  then have m': "make_triangle_mesh ext (evalpts s) (sample_size_u s) (sample_size_v s) = (verts, tris)"
    by (simp add: mesh_of_def)
  have len: "int (length (v_block ext srfs) + length verts) = offset_at ext (srfs @ [s]) (Suc (length srfs))"
    by (simp add: offset_at_def v_block_def length_concat comp_def m)
  show ?case
    unfolding export_loop_snoc snoc.IH
    using len
    by (simp add: export_srf_def m' Let_def v_block_snoc f_block_snoc m vn_block_def vp_block_def)
qed

lemma export_obj_str_ok:
  "pdimension surface = 2 \<Longrightarrow> 1 \<le> kwargs_get (kw_vertex_spacing kw) 1 \<Longrightarrow>
   export_obj_str ext kw surface =
     Inr (assemble (export_loop ext (kwargs_get (kw_vertex_normals kw) False)
                      (kwargs_get (kw_parametric_vertices kw) False) export_init (members surface)))"
  by (simp add: export_obj_str_def Let_def)

lemma export_obj_str_InrD:
  "export_obj_str ext kw surface = Inr text \<Longrightarrow>
   pdimension surface = 2 \<and> 1 \<le> kwargs_get (kw_vertex_spacing kw) 1"
  by (simp add: export_obj_str_def Let_def split: if_splits)

section \<open>Lemmas on the import loop\<close>

lemma split_not_Nil: "split sep s \<noteq> []"
  by (induction s) (auto split: list.splits)

lemma tokens_not_Nil: "tokens carr \<noteq> []"
  by (simp add: tokens_def split_not_Nil)

lemma step_v: "is_v_line carr \<Longrightarrow> step st carr = Inr (on_v st (line_args carr))"
  by (auto simp: is_v_line_def step_def step_data_def line_args_def Let_def split: list.splits)

lemma step_f: "is_f_line carr \<Longrightarrow> step st carr = on_f st (line_args carr)"
  by (auto simp: is_f_line_def step_def step_data_def line_args_def Let_def split: list.splits)

lemma step_other: "\<not> is_v_line carr \<Longrightarrow> \<not> is_f_line carr \<Longrightarrow> step st carr = Inr st"
  using tokens_not_Nil [of carr]
  by (auto simp: is_v_line_def is_f_line_def step_def step_data_def Let_def split: list.splits)

lemma run_append:
  "run st (xs @ ys) = (case run st xs of Inl e \<Rightarrow> Inl e | Inr st' \<Rightarrow> run st' ys)"
  by (induction xs arbitrary: st) (auto split: sum.splits)

lemma run_filter: "run st (filter (\<lambda>carr. is_v_line carr \<or> is_f_line carr) ls) = run st ls"
  by (induction ls arbitrary: st) (auto simp: step_other split: sum.splits)

lemma run_others: "\<forall>carr\<in>set ls. \<not> is_v_line carr \<and> \<not> is_f_line carr \<Longrightarrow> run st ls = Inr st"
  by (induction ls arbitrary: st) (auto simp: step_other)

lemma run_snoc:
  "run st (xs @ [x]) = (case run st xs of Inl e \<Rightarrow> Inl e | Inr st' \<Rightarrow> step st' x)"
  by (simp add: run_append split: sum.splits)

lemma run_v_block:
  assumes "list_all is_v_line ls" and "\<not> on_face st"
  shows "run st ls =
     Inr (st\<lparr>vertices := vertices st @
                 map2 Vertex (map line_args ls) (map (\<lambda>k. vert_idx st + int k) [0..<length ls]),
              vert_idx := vert_idx st + int (length ls)\<rparr>)"
  using assms
proof (induction ls rule: rev_induct)
  case Nil
  then show ?case by simp
next
  case (snoc x xs)
  then show ?case
    by (simp add: run_snoc step_v on_v_def Let_def)
qed

lemma run_v_block_on_face:
  assumes "list_all is_v_line ls" and "ls \<noteq> []" and "on_face st"
  shows "run st ls =
     Inr (st\<lparr>on_face := False,
              faces := faces st @ [Face (triangles st) (face_idx st)],
              face_idx := face_idx st + 1,
              vertices := vertex_block ls, triangles := [],
              vert_idx := 1 + int (length ls), tri_idx := 1\<rparr>)"
proof -
  from assms obtain x xs where ls: "ls = x # xs"
    by (cases ls) auto
  have shift: "map int [Suc 0..<Suc (Suc (length xs))] = 1 # map (\<lambda>k. 2 + int k) [0..<length xs]"
    by (simp add: upt_conv_Cons map_Suc_upt [symmetric] del: upt_Suc)
  from assms show ?thesis
    unfolding ls
    apply (simp add: step_v)
    apply (subst run_v_block)
      apply (simp_all add: on_v_def Let_def vertex_block_def shift del: upt_Suc)
    done
qed

lemma run_f_block:
  assumes "list_all is_f_line ls" and "list_all (resolves (vertices st)) ls"
  shows "\<exists>tris. run st ls =
            Inr (st\<lparr>on_face := (on_face st \<or> ls \<noteq> []),
                     triangles := triangles st @ tris,
                     tri_idx := tri_idx st + int (length ls)\<rparr>) \<and>
          list_all2 (\<lambda>carr t. resolve (vertices st) (line_args carr) = Inr (triangle_vertices t)) ls tris \<and>
          map triangle_id tris = map (\<lambda>k. tri_idx st + int k) [0..<length ls]"
  using assms
proof (induction ls rule: rev_induct)
  case Nil
  then show ?case by simp
next
  case (snoc x xs)
  then obtain tris where
    r: "run st xs = Inr (st\<lparr>on_face := (on_face st \<or> xs \<noteq> []), triangles := triangles st @ tris,
                           tri_idx := tri_idx st + int (length xs)\<rparr>)"
    and l: "list_all2 (\<lambda>carr t. resolve (vertices st) (line_args carr) = Inr (triangle_vertices t)) xs tris"
    and i: "map triangle_id tris = map (\<lambda>k. tri_idx st + int k) [0..<length xs]"
    by auto
  from snoc.prems obtain vs where v: "resolve (vertices st) (line_args x) = Inr vs"
    by (auto simp: resolves_def split: sum.splits)
  from snoc.prems have f: "is_f_line x" by simp
  let ?t = "Triangle vs (tri_idx st + int (length xs))"
  have "run st (xs @ [x]) =
          Inr (st\<lparr>on_face := (on_face st \<or> xs @ [x] \<noteq> []),
                  triangles := triangles st @ (tris @ [?t]),
                  tri_idx := tri_idx st + int (length (xs @ [x]))\<rparr>)"
    by (simp add: run_snoc r step_f [OF f] on_f_def v add.assoc)
  moreover have "list_all2 (\<lambda>carr t. resolve (vertices st) (line_args carr) = Inr (triangle_vertices t))
                   (xs @ [x]) (tris @ [?t])"
    using l v by (simp add: list_all2_appendI)
  moreover have "map triangle_id (tris @ [?t]) = map (\<lambda>k. tri_idx st + int k) [0..<length (xs @ [x])]"
    using i by simp
  ultimately show ?case by blast
qed

lemma map_int_upt_from_1: "map (\<lambda>k. 1 + int k) [0..<n] = map int [Suc 0..<Suc n]"
  by (simp add: map_Suc_upt [symmetric] del: upt_Suc)

lemma run_v_block_init:
  assumes "list_all is_v_line ls"
  shows "run init_state ls =
           Inr (init_state\<lparr>vertices := vertex_block ls, vert_idx := 1 + int (length ls)\<rparr>)"
  using run_v_block [OF assms, of init_state]
  by (simp add: init_state_def vertex_block_def map_int_upt_from_1 del: upt_Suc)

lemma map_vertex_id_map2: "length xs = length ys \<Longrightarrow> map vertex_id (map2 Vertex xs ys) = ys"
  by (induction xs ys rule: list_induct2) simp_all

lemma vertex_block_ids: "map vertex_id (vertex_block ls) = map int [1..<Suc (length ls)]"
  unfolding vertex_block_def by (rule map_vertex_id_map2) (simp del: upt_Suc)

lemma import_two_blocks_lines:
  assumes v1: "list_all is_v_line vs1" and f1: "list_all is_f_line fs1"
    and v2: "list_all is_v_line vs2" and f2: "list_all is_f_line fs2"
    and ne: "fs1 \<noteq> []" "vs2 \<noteq> []" "fs2 \<noteq> []"
    and r1: "list_all (resolves (vertex_block vs1)) fs1"
    and r2: "list_all (resolves (vertex_block vs2)) fs2"
  shows "\<exists>tris1 tris2.
           run init_state (vs1 @ fs1 @ vs2 @ fs2) =
             Inr \<lparr>on_face = True, vertices = vertex_block vs2, triangles = tris2,
                  faces = [Face tris1 1], vert_idx = 1 + int (length vs2),
                  tri_idx = 1 + int (length fs2), face_idx = 2\<rparr> \<and>
           triangle_block (vertex_block vs1) fs1 tris1 \<and>
           triangle_block (vertex_block vs2) fs2 tris2"
proof -
  define s1 where "s1 = \<lparr>on_face = False, vertices = vertex_block vs1, triangles = [],
     faces = [], vert_idx = 1 + int (length vs1), tri_idx = 1, face_idx = 1\<rparr>"
  have a1: "run init_state vs1 = Inr s1"
    using run_v_block_init [OF v1] by (simp add: init_state_def s1_def)
  have "list_all (resolves (vertices s1)) fs1"
    using r1 by (simp add: s1_def)
  from run_f_block [OF f1 this] obtain tris1 where
    s2: "run s1 fs1 = Inr (s1\<lparr>on_face := (on_face s1 \<or> fs1 \<noteq> []),
                              triangles := triangles s1 @ tris1,
                              tri_idx := tri_idx s1 + int (length fs1)\<rparr>)"
    and t1: "list_all2 (\<lambda>carr t. resolve (vertices s1) (line_args carr) = Inr (triangle_vertices t)) fs1 tris1"
    and i1: "map triangle_id tris1 = map (\<lambda>k. tri_idx s1 + int k) [0..<length fs1]"
    by blast
  define s2 where "s2 = \<lparr>on_face = True, vertices = vertex_block vs1, triangles = tris1,
     faces = [], vert_idx = 1 + int (length vs1), tri_idx = 1 + int (length fs1), face_idx = 1\<rparr>"
  have a2: "run s1 fs1 = Inr s2"
    using s2 ne by (simp add: s1_def s2_def)
  define s3 where "s3 = \<lparr>on_face = False, vertices = vertex_block vs2, triangles = [],
     faces = [Face tris1 1], vert_idx = 1 + int (length vs2), tri_idx = 1, face_idx = 2\<rparr>"
  have a3: "run s2 vs2 = Inr s3"
    using run_v_block_on_face [OF v2 ne(2), of s2] by (simp add: s2_def s3_def)
  have "list_all (resolves (vertices s3)) fs2"
    using r2 by (simp add: s3_def)
  from run_f_block [OF f2 this] obtain tris2 where
    s4: "run s3 fs2 = Inr (s3\<lparr>on_face := (on_face s3 \<or> fs2 \<noteq> []),
                              triangles := triangles s3 @ tris2,
                              tri_idx := tri_idx s3 + int (length fs2)\<rparr>)"
    and t2: "list_all2 (\<lambda>carr t. resolve (vertices s3) (line_args carr) = Inr (triangle_vertices t)) fs2 tris2"
    and i2: "map triangle_id tris2 = map (\<lambda>k. tri_idx s3 + int k) [0..<length fs2]"
    by blast
  have a4: "run s3 fs2 =
          Inr \<lparr>on_face = True, vertices = vertex_block vs2, triangles = tris2,
               faces = [Face tris1 1], vert_idx = 1 + int (length vs2),
               tri_idx = 1 + int (length fs2), face_idx = 2\<rparr>"
    using s4 ne by (simp add: s3_def)
  have "run init_state (vs1 @ fs1 @ vs2 @ fs2) =
          Inr \<lparr>on_face = True, vertices = vertex_block vs2, triangles = tris2,
               faces = [Face tris1 1], vert_idx = 1 + int (length vs2),
               tri_idx = 1 + int (length fs2), face_idx = 2\<rparr>"
    by (simp only: run_append a1 a2 a3 a4 sum.case)
  moreover have "triangle_block (vertex_block vs1) fs1 tris1"
    using t1 i1 by (simp add: triangle_block_def s1_def map_int_upt_from_1 del: upt_Suc)
  moreover have "triangle_block (vertex_block vs2) fs2 tris2"
    using t2 i2 by (simp add: triangle_block_def s3_def map_int_upt_from_1 del: upt_Suc)
  ultimately show ?thesis by blast
qed

lemma triangle_block_length: "triangle_block verts ls tris \<Longrightarrow> length tris = length ls"
  by (auto simp: triangle_block_def dest: list_all2_lengthD)

lemma getitem_in_range:
  "- int (length xs) \<le> i \<Longrightarrow> i < int (length xs) \<Longrightarrow>
   getitem xs i = Inr (xs ! nat (if i < 0 then i + int (length xs) else i))"
  by (simp add: getitem_def Let_def)

lemma getitem_out_of_range:
  "i < - int (length xs) \<or> int (length xs) \<le> i \<Longrightarrow> getitem xs i = Inl IndexError"
  by (auto simp: getitem_def Let_def)

lemma resolve_in_range:
  assumes "map py_int args = map Inr ns"
    and "\<forall>n\<in>set ns. - int (length vs) < n \<and> n \<le> int (length vs)"
  shows "resolve vs args =
           Inr (map (\<lambda>n. vs ! nat (if n \<le> 0 then n - 1 + int (length vs) else n - 1)) ns)"
  using assms
proof (induction args arbitrary: ns)
  case Nil
  then show ?case by simp
next
  case (Cons a args)
  then obtain n ns' where ns: "ns = n # ns'" "py_int a = Inr n" "map py_int args = map Inr ns'"
    by (cases ns) auto
  with Cons.prems have rng: "- int (length vs) \<le> n - 1" "n - 1 < int (length vs)"
    by auto
  have "n - 1 < 0 \<longleftrightarrow> n \<le> 0" by arith
  with Cons.IH [OF ns(3)] Cons.prems ns getitem_in_range [OF rng] show ?case
    by simp
qed

lemma resolve_out_of_range:
  assumes "a \<in> set args" and "py_int a = Inr n"
    and "int (length vs) < n \<or> n \<le> - int (length vs)"
  shows "\<exists>e. resolve vs args = Inl e"
  using assms(1)
proof (induction args)
  case Nil
  then show ?case by simp
next
  case (Cons b args)
  show ?case
  proof (cases "b = a")
    case True
    have "getitem vs (n - 1) = Inl IndexError"
      using assms(3) by (intro getitem_out_of_range) arith
    with True assms(2) show ?thesis by simp
  next
    case False
    with Cons obtain e where "resolve vs args = Inl e" by auto
    then show ?thesis by (simp split: sum.splits)
  qed
qed

lemma resolve_IndexError:
  assumes "map py_int args = map Inr ns" and "resolve vs args = Inl e"
  shows "e = IndexError"
  using assms
proof (induction args arbitrary: ns)
  case Nil
  then show ?case by simp
next
  case (Cons a args)
  then obtain n ns' where ns: "ns = n # ns'" "py_int a = Inr n" "map py_int args = map Inr ns'"
    by (cases ns) auto
  show ?case
  proof (cases "getitem vs (n - 1)")
    case (Inl e')
    then have "e' = IndexError" by (auto simp: getitem_def Let_def split: if_splits)
    with Inl Cons.prems ns show ?thesis by simp
  next
    case (Inr v)
    with Cons.prems ns obtain "resolve vs args = Inl e"
      by (auto split: sum.splits)
    with Cons.IH ns show ?thesis by blast
  qed
qed

lemma run_fails_at:
  "run st pre = Inr st' \<Longrightarrow> step st' carr = Inl e \<Longrightarrow> run st (pre @ carr # post) = Inl e"
  by (simp add: run_append)

lemma dropWhile_all: "\<forall>c\<in>set p. P c \<Longrightarrow> dropWhile P (p @ s) = dropWhile P s"
  by (induction p) auto

lemma strip_pad:
  assumes p: "\<forall>c\<in>set p. isspace c" and q: "\<forall>c\<in>set q. isspace c"
  shows "strip (p @ s @ q) = strip s"
proof (cases "\<forall>c\<in>set s. isspace c")
  case True
  with p q have a: "dropWhile isspace (p @ s @ q) = []"
    by (auto simp: dropWhile_eq_Nil_conv)
  from True have b: "dropWhile isspace s = []"
    by (auto simp: dropWhile_eq_Nil_conv)
  show ?thesis unfolding strip_def a b by simp
next
  case False
  with p have "dropWhile isspace (p @ s @ q) = dropWhile isspace s @ q"
    by (simp add: dropWhile_all dropWhile_append1 del: append_assoc) 
       (metis dropWhile_append1 dropWhile_append2)
  with q show ?thesis
    by (simp add: strip_def dropWhile_all)
qed

lemma import_lines_fails_at:
  assumes "run init_state pre = Inr st" and "step st carr = Inl e"
  shows "import_lines (pre @ carr # post) = Inl e"
  using run_fails_at [OF assms] by (simp add: import_lines_def)

lemma strip_Cons_space: "isspace c \<Longrightarrow> strip (c # s) = strip s"
  using strip_pad [of "[c]" "[]" s] by simp

lemma strip_snoc_space: "isspace c \<Longrightarrow> strip (s @ [c]) = strip s"
  using strip_pad [of "[]" "[c]" s] by simp

lemma strip_Cons_nonspace: "\<not> isspace c \<Longrightarrow> strip (c # s) \<noteq> []"
  by (simp add: strip_def)

lemma strip_snoc_nonspace: "\<not> isspace c \<Longrightarrow> strip (s @ [c]) \<noteq> []"
proof -
  assume c: "\<not> isspace c"
  obtain t where "dropWhile isspace (s @ [c]) = t @ [c]"
    using c by (cases "\<forall>x\<in>set s. isspace x") (simp_all add: dropWhile_append)
  with c show ?thesis by (simp add: strip_def)
qed

lemma split_snoc:
  "split sep (s @ [c]) =
     (if c = sep then split sep s @ [[]]
      else butlast (split sep s) @ [last (split sep s) @ [c]])"
  by (induction s) (auto simp: split_not_Nil split: list.splits)

lemma ltrim_fields:
  "map strip (split CHR '' '' (dropWhile isspace s)) = ltrim (map strip (split CHR '' '' s))"
proof (induction s)
  case Nil
  show ?case by (simp add: ltrim_def strip_def)
next
  case (Cons c s)
  obtain w ws where w: "split CHR '' '' s = w # ws"
    using split_not_Nil [of "CHR '' ''" s] by (cases "split CHR '' '' s") auto
  show ?case
  proof (cases "isspace c")
    case True
    show ?thesis
    proof (cases "c = CHR '' ''")
      case sp: True
      have "strip [] = []" by (simp add: strip_def)
      with True sp Cons show ?thesis by (simp add: ltrim_def)
    next
      case False
      with True Cons w show ?thesis by (simp add: strip_Cons_space)
    qed
  next
    case False
    then have "c \<noteq> CHR '' ''" by (auto simp: isspace_def)
    with False w show ?thesis by (simp add: ltrim_def strip_Cons_nonspace split: list.splits)
  qed
qed

lemma rtrim_fields:
  "map strip (split CHR '' '' (rev (dropWhile isspace (rev s)))) = rtrim (map strip (split CHR '' '' s))"
proof (induction s rule: rev_induct)
  case Nil
  show ?case by (simp add: rtrim_def strip_def)
next
  case (snoc c s)
  let ?X = "split CHR '' '' s"
  have X: "?X \<noteq> []" by (rule split_not_Nil)
  then have bl: "butlast ?X @ [last ?X] = ?X" by simp
  show ?case
  proof (cases "isspace c")
    case True
    show ?thesis
    proof (cases "c = CHR '' ''")
      case sp: True
      have "strip [] = []" by (simp add: strip_def)
      with True sp snoc show ?thesis by (simp add: rtrim_def split_snoc)
    next
      case False
      have "map strip (butlast ?X @ [last ?X @ [c]]) = map strip (butlast ?X @ [last ?X])"
        using True by (simp add: strip_snoc_space)
      with True False snoc show ?thesis by (simp add: split_snoc bl)
    qed
  next
    case False
    then have "c \<noteq> CHR '' ''" by (auto simp: isspace_def)
    with False show ?thesis by (simp add: rtrim_def split_snoc strip_snoc_nonspace)
  qed
qed

lemma tokens_fields: "tokens carr = fields carr"
  by (simp add: tokens_def fields_def strip_def rtrim_fields ltrim_fields)


lemma run_same_tokens:
  "list_all2 (\<lambda>carr carr'. tokens carr' = tokens carr) ls ls' \<Longrightarrow> run st ls' = run st ls"
  by (induction ls ls' arbitrary: st rule: list_all2_induct)
    (auto simp: step_def split: sum.splits)

lemma fields_padded:
  "list_all isspace p \<Longrightarrow> list_all isspace q \<Longrightarrow> fields (p @ carr @ q) = fields carr"
  using strip_pad [of p q carr] by (simp add: tokens_fields [symmetric] tokens_def list_all_iff)

section \<open>Lemmas on the rendering of integers and of face lines\<close>








































section \<open>Export: validation\<close>

text \<open>
  Claim C9. A call of \<open>export_obj_str\<close> whose \<open>vertex_spacing\<close> is below 1 raises
  \<open>GeomdlError\<close> (the module's validation error). The error is decided by the
  keyword arguments and the parametric dimension alone: the collaborators (tessellator,
  normal evaluator) and the surfaces to iterate over have no part in it, so nothing is
  tessellated and no text is produced.
\<close>

theorem export_vertex_spacing_validated:
  assumes "kwargs_get (kw_vertex_spacing kw) 1 < 1"
  shows "(\<exists>msg. export_obj_str ext kw surface = Inl (GeomdlError msg)) \<and>
         (pdimension surface = 2 \<longrightarrow>
            export_obj_str ext kw surface =
              Inl (GeomdlError ''Vertex spacing should be bigger than zero'')) \<and>
         export_obj_str ext' kw (surface\<lparr>members := srfs\<rparr>) = export_obj_str ext kw surface"
  using assms by (simp add: export_obj_str_def Let_def)

theorem export_vertex_spacing_validated_witness:
  "export_obj_str square_ext (no_kwargs\<lparr>kw_vertex_spacing := Some 0\<rparr>)
     \<lparr>pdimension = 2, members = [square_srf]\<rparr> =
   Inl (GeomdlError ''Vertex spacing should be bigger than zero'')"
proof -
  have "kwargs_get (kw_vertex_spacing (no_kwargs\<lparr>kw_vertex_spacing := Some 0\<rparr>)) 1 < 1"
    by (simp add: kwargs_get_def)
  from export_vertex_spacing_validated
         [where surface = "\<lparr>pdimension = 2, members = [square_srf]\<rparr>" and ext = square_ext,
          OF this]
  show ?thesis by simp
qed

text \<open>
  Claim C10, as amended. A call of \<open>export_obj_str\<close> whose input has a parametric
  dimension other than 2 raises \<open>GeomdlError\<close> with the message
  \<open>Can only export surfaces\<close>, whatever the keyword arguments, the collaborators and
  the members of the input are: no surface is processed.
\<close>

theorem export_surfaces_only:
  assumes "pdimension surface \<noteq> 2"
  shows "export_obj_str ext kw surface = Inl (GeomdlError ''Can only export surfaces'') \<and>
         export_obj_str ext' kw' (surface\<lparr>members := srfs\<rparr>) = export_obj_str ext kw surface"
  using assms by (simp add: export_obj_str_def Let_def)

theorem export_surfaces_only_witness:
  "export_obj_str square_ext no_kwargs \<lparr>pdimension = 1, members = [square_srf]\<rparr> =
   Inl (GeomdlError ''Can only export surfaces'')"
proof -
  have "pdimension \<lparr>pdimension = 1, members = [square_srf]\<rparr> \<noteq> 2"
    by simp
  from export_surfaces_only [where ext = square_ext and kw = no_kwargs, OF this]
  show ?thesis by simp
qed

text \<open>The message of the error is not the text \<open>surfaces only\<close>.\<close>

theorem export_surfaces_only_message_counterexample:
  "export_obj_str square_ext no_kwargs \<lparr>pdimension = 1, members = [square_srf]\<rparr> \<noteq>
   Inl (GeomdlError ''surfaces only'')"
  by (simp add: export_obj_str_def Let_def)

section \<open>Export: the order of the blocks\<close>

text \<open>
  Claim C4. The text of a successful export is the generator comment line, then the
  \<open>v\<close> lines of all surfaces, then the \<open>vn\<close> lines of all surfaces, then the
  \<open>vp\<close> lines of all surfaces, then the \<open>f\<close> lines of all surfaces: each block
  runs over all the surfaces before the next block starts.
\<close>

theorem export_block_order:
  assumes "export_obj_str ext kw surface = Inr text"
  shows "text =
     ''# Generated by geomdl'' @ [CHR 0x0A] @
     concat (v_block ext (members surface)) @
     concat (if kwargs_get (kw_vertex_normals kw) False
             then vn_block ext (members surface) else []) @
     concat (if kwargs_get (kw_parametric_vertices kw) False
             then vp_block ext (members surface) else []) @
     concat (f_block ext (members surface))"
proof -
  from assms have ok: "pdimension surface = 2" "1 \<le> kwargs_get (kw_vertex_spacing kw) 1"
    by (auto dest: export_obj_str_InrD)
  from assms show ?thesis
    unfolding export_obj_str_ok [OF ok] export_loop_closed
    by (auto simp add: assemble_def)
qed

theorem export_block_order_witness:
  "export_obj_str square_ext
     \<lparr>kw_vertex_spacing = None, kw_vertex_normals = Some True, kw_parametric_vertices = Some True\<rparr>
     \<lparr>pdimension = 2, members = [square_srf, square_srf]\<rparr> =
   Inr (''# Generated by geomdl\<newline>'' @
        ''v 0.0 0.0 0.0\<newline>v 1.0 0.0 0.0\<newline>v 0.0 1.0 0.0\<newline>v 1.0 1.0 0.0\<newline>'' @
        ''v 0.0 0.0 0.0\<newline>v 1.0 0.0 0.0\<newline>v 0.0 1.0 0.0\<newline>v 1.0 1.0 0.0\<newline>'' @
        ''vn 0.0 0.0 1.0\<newline>vn 0.0 0.0 1.0\<newline>vn 0.0 0.0 1.0\<newline>vn 0.0 0.0 1.0\<newline>'' @
        ''vn 0.0 0.0 1.0\<newline>vn 0.0 0.0 1.0\<newline>vn 0.0 0.0 1.0\<newline>vn 0.0 0.0 1.0\<newline>'' @
        ''vp 0.0 0.0\<newline>vp 1.0 0.0\<newline>vp 0.0 1.0\<newline>vp 1.0 1.0\<newline>'' @
        ''vp 0.0 0.0\<newline>vp 1.0 0.0\<newline>vp 0.0 1.0\<newline>vp 1.0 1.0\<newline>'' @
        ''f 1 2 3\<newline>f 2 4 3\<newline>f 5 6 7\<newline>f 6 8 7\<newline>'')"
proof -
  let ?kw = "\<lparr>kw_vertex_spacing = None, kw_vertex_normals = Some True, kw_parametric_vertices = Some True\<rparr>"
  let ?g = "\<lparr>pdimension = 2, members = [square_srf, square_srf]\<rparr> :: (string, unit) geometry"
  have "export_obj_str square_ext ?kw ?g =
          Inr (assemble (export_loop square_ext True True export_init [square_srf, square_srf]))"
    by (simp add: export_obj_str_def kwargs_get_def)
  from export_block_order [OF this]
  have "assemble (export_loop square_ext True True export_init [square_srf, square_srf]) =
     ''# Generated by geomdl'' @ [CHR 0x0A] @
     concat (v_block square_ext [square_srf, square_srf]) @
     concat (vn_block square_ext [square_srf, square_srf]) @
     concat (vp_block square_ext [square_srf, square_srf]) @
     concat (f_block square_ext [square_srf, square_srf])"
    by (simp add: kwargs_get_def)
  moreover have "concat (v_block square_ext [square_srf, square_srf]) =
       ''v 0.0 0.0 0.0\<newline>v 1.0 0.0 0.0\<newline>v 0.0 1.0 0.0\<newline>v 1.0 1.0 0.0\<newline>'' @
       ''v 0.0 0.0 0.0\<newline>v 1.0 0.0 0.0\<newline>v 0.0 1.0 0.0\<newline>v 1.0 1.0 0.0\<newline>''"
    by code_simp
  moreover have "concat (vn_block square_ext [square_srf, square_srf]) =
        ''vn 0.0 0.0 1.0\<newline>vn 0.0 0.0 1.0\<newline>vn 0.0 0.0 1.0\<newline>vn 0.0 0.0 1.0\<newline>'' @
        ''vn 0.0 0.0 1.0\<newline>vn 0.0 0.0 1.0\<newline>vn 0.0 0.0 1.0\<newline>vn 0.0 0.0 1.0\<newline>''"
    by code_simp
  moreover have "concat (vp_block square_ext [square_srf, square_srf]) =
        ''vp 0.0 0.0\<newline>vp 1.0 0.0\<newline>vp 0.0 1.0\<newline>vp 1.0 1.0\<newline>'' @
        ''vp 0.0 0.0\<newline>vp 1.0 0.0\<newline>vp 0.0 1.0\<newline>vp 1.0 1.0\<newline>''"
    by code_simp
  moreover have "concat (f_block square_ext [square_srf, square_srf]) =
        ''f 1 2 3\<newline>f 2 4 3\<newline>f 5 6 7\<newline>f 6 8 7\<newline>''"
    by code_simp
  ultimately show ?thesis
    by (simp add: export_obj_str_def kwargs_get_def)
qed

section \<open>Export: the indices of the face lines\<close>




section \<open>Export: the vertex spacing\<close>

text \<open>
  Claim C2 says that the validated \<open>vertex_spacing\<close> reaches the tessellator as its
  sampling density. The source calls the tessellator with three arguments (the evaluated
  points and the two sample counts), so the option has no effect beyond its validation:
  any two accepted values of \<open>vertex_spacing\<close> give the same exported text, for the
  same collaborators, the same other options and the same input.
\<close>

theorem export_ignores_vertex_spacing:
  assumes "1 \<le> a" and "1 \<le> b"
  shows "export_obj_str ext (kw\<lparr>kw_vertex_spacing := Some a\<rparr>) surface =
         export_obj_str ext (kw\<lparr>kw_vertex_spacing := Some b\<rparr>) surface"
  using assms by (simp add: export_obj_str_def kwargs_get_def Let_def)

theorem export_ignores_vertex_spacing_witness:
  "export_obj_str square_ext (no_kwargs\<lparr>kw_vertex_spacing := Some 1\<rparr>)
     \<lparr>pdimension = 2, members = [square_srf]\<rparr> =
   export_obj_str square_ext (no_kwargs\<lparr>kw_vertex_spacing := Some 2\<rparr>)
     \<lparr>pdimension = 2, members = [square_srf]\<rparr>"
proof -
  have "(1::int) \<le> 1" and "(1::int) \<le> 2" by simp_all
  from export_ignores_vertex_spacing [OF this] show ?thesis .
qed

section \<open>Import: face indices out of range\<close>

text \<open>
  Claim C1, as amended. Let a face line follow the lines \<open>pre\<close>, which leave the
  local vertex buffer \<open>vertices st\<close> of length \<open>len\<close>. If one of its index tokens
  is the integer \<open>n\<close> with \<open>n > len\<close> or \<open>n \<le> - len\<close>, the import fails with
  an error and returns no faces, whatever the callback and the lines after it are; the
  error is \<open>IndexError\<close> when every index token of the line is an integer. (Tokens
  with \<open>- len < n \<le> 0\<close> are outside the 1-based range as well, and are accepted: see
  the counterexample.)
\<close>

theorem import_index_out_of_range:
  assumes c: "split (CHR 0x0A) content = pre @ carr # post"
    and pre: "run init_state pre = Inr st"
    and f: "is_f_line carr"
    and a: "a \<in> set (line_args carr)" "py_int a = Inr n"
    and n: "int (length (vertices st)) < n \<or> n \<le> - int (length (vertices st))"
  shows "(\<exists>e. import_obj_str callback_func content = Inl e) \<and>
         (\<forall>ns. map py_int (line_args carr) = map Inr ns \<longrightarrow>
               import_obj_str callback_func content = Inl IndexError)"
proof -
  from resolve_out_of_range [OF a n] obtain e where
    e: "resolve (vertices st) (line_args carr) = Inl e" by blast
  then have "step st carr = Inl e"
    by (simp add: step_f [OF f] on_f_def)
  from import_lines_fails_at [OF pre this] have r: "import_obj_str callback_func content = Inl e"
    by (simp add: import_obj_str_def c)
  moreover have "e = IndexError" if "map py_int (line_args carr) = map Inr ns" for ns
    using resolve_IndexError [OF that e] .
  ultimately show ?thesis by auto
qed

theorem import_index_out_of_range_witness:
  "import_obj_str default_callback ''v 0 0 0\<newline>v 1 0 0\<newline>v 0 1 0\<newline>f 1 2 4\<newline>'' = Inl IndexError"
proof -
  let ?st = "\<lparr>on_face = False,
     vertices = [Vertex [''0'', ''0'', ''0''] 1, Vertex [''1'', ''0'', ''0''] 2, Vertex [''0'', ''1'', ''0''] 3],
     triangles = [], faces = [], vert_idx = 4, tri_idx = 1, face_idx = 1\<rparr>"
  have c: "split (CHR 0x0A) ''v 0 0 0\<newline>v 1 0 0\<newline>v 0 1 0\<newline>f 1 2 4\<newline>'' =
             [''v 0 0 0'', ''v 1 0 0'', ''v 0 1 0''] @ ''f 1 2 4'' # ['''']"
    by simp
  have pre: "run init_state [''v 0 0 0'', ''v 1 0 0'', ''v 0 1 0''] = Inr ?st"
    by code_simp
  have f: "is_f_line ''f 1 2 4''" by code_simp
  have a: "''4'' \<in> set (line_args ''f 1 2 4'')" by code_simp
  have p: "py_int ''4'' = Inr 4" by code_simp
  have n: "int (length (vertices ?st)) < 4 \<or> 4 \<le> - int (length (vertices ?st))" by simp
  have ns: "map py_int (line_args ''f 1 2 4'') = map Inr [1, 2, 4]" by code_simp
  from import_index_out_of_range [OF c pre f a p n, of default_callback] ns
  show ?thesis by blast
qed

text \<open>The index token \<open>0\<close> is outside the bounds \<open>1..3\<close> of the buffer; the import
  succeeds and the token refers to the last vertex.\<close>

theorem import_index_zero_counterexample:
  "import_obj_str default_callback ''v 0 0 0\<newline>v 1 0 0\<newline>v 0 1 0\<newline>f 0 1 2\<newline>'' =
     Inr [Face [Triangle [Vertex [''0'', ''1'', ''0''] 3, Vertex [''0'', ''0'', ''0''] 1,
                          Vertex [''1'', ''0'', ''0''] 2] 1] 1]"
  by code_simp

section \<open>Import: index tokens that are zero or negative\<close>

text \<open>
  Claim C7, as amended. With a non-empty local vertex buffer of length \<open>len\<close>, a face
  line whose index tokens are integers \<open>n\<close> with \<open>- len < n \<le> len\<close> raises no
  error: the step succeeds and appends one triangle, in which a token \<open>n \<le> 0\<close>
  refers to the vertex at position \<open>- n\<close> counted from the end of the buffer (the
  token \<open>0\<close> to the last vertex) and a token \<open>n > 0\<close> to the vertex at position
  \<open>n\<close> counted from 1.
\<close>

theorem import_nonpositive_index:
  assumes ne: "vertices st \<noteq> []"
    and f: "is_f_line carr"
    and ns: "map py_int (line_args carr) = map Inr ns"
    and rng: "\<forall>n\<in>set ns. - int (length (vertices st)) < n \<and> n \<le> int (length (vertices st))"
  shows "step st carr =
           Inr (st\<lparr>on_face := True,
                   triangles := triangles st @
                     [Triangle (map (\<lambda>n. if n \<le> 0 then rev (vertices st) ! nat (- n)
                                         else vertices st ! nat (n - 1)) ns) (tri_idx st)],
                   tri_idx := tri_idx st + 1\<rparr>) \<and>
         rev (vertices st) ! nat (- 0) = last (vertices st)"
proof -
  have "vertices st ! nat (if n \<le> 0 then n - 1 + int (length (vertices st)) else n - 1) =
        (if n \<le> 0 then rev (vertices st) ! nat (- n) else vertices st ! nat (n - 1))"
    if "n \<in> set ns" for n
  proof (cases "n \<le> 0")
    case True
    with rng that have lt: "nat (- n) < length (vertices st)" by auto
    have "nat (n - 1 + int (length (vertices st))) = length (vertices st) - Suc (nat (- n))"
      using True lt by arith
    with True show ?thesis by (simp add: rev_nth [OF lt])
  next
    case False
    then show ?thesis by simp
  qed
  then have "map (\<lambda>n. vertices st ! nat (if n \<le> 0 then n - 1 + int (length (vertices st)) else n - 1)) ns =
             map (\<lambda>n. if n \<le> 0 then rev (vertices st) ! nat (- n) else vertices st ! nat (n - 1)) ns"
    by (intro map_cong) auto
  with resolve_in_range [OF ns rng] have
    "resolve (vertices st) (line_args carr) =
       Inr (map (\<lambda>n. if n \<le> 0 then rev (vertices st) ! nat (- n) else vertices st ! nat (n - 1)) ns)"
    by simp
  moreover from ne have "rev (vertices st) ! nat (- 0) = last (vertices st)"
    by (simp add: last_rev [symmetric] hd_conv_nth [symmetric] hd_rev del: last_rev)
  ultimately show ?thesis
    by (simp add: step_f [OF f] on_f_def)
qed

theorem import_nonpositive_index_witness:
  "step \<lparr>on_face = False,
          vertices = [Vertex [''0'', ''0'', ''0''] 1, Vertex [''1'', ''0'', ''0''] 2,
                      Vertex [''0'', ''1'', ''0''] 3],
          triangles = [], faces = [], vert_idx = 4, tri_idx = 1, face_idx = 1\<rparr>
        ''f 0 -1 -2'' =
     Inr \<lparr>on_face = True,
          vertices = [Vertex [''0'', ''0'', ''0''] 1, Vertex [''1'', ''0'', ''0''] 2,
                      Vertex [''0'', ''1'', ''0''] 3],
          triangles = [Triangle [Vertex [''0'', ''1'', ''0''] 3, Vertex [''1'', ''0'', ''0''] 2,
                                 Vertex [''0'', ''0'', ''0''] 1] 1],
          faces = [], vert_idx = 4, tri_idx = 2, face_idx = 1\<rparr>"
proof -
  let ?st = "\<lparr>on_face = False,
     vertices = [Vertex [''0'', ''0'', ''0''] 1, Vertex [''1'', ''0'', ''0''] 2, Vertex [''0'', ''1'', ''0''] 3],
     triangles = [], faces = [], vert_idx = 4, tri_idx = 1, face_idx = 1\<rparr>"
  have ne: "vertices ?st \<noteq> []" by simp
  have f: "is_f_line ''f 0 -1 -2''" by code_simp
  have ns: "map py_int (line_args ''f 0 -1 -2'') = map Inr [0, - 1, - 2]" by code_simp
  have rng: "\<forall>n\<in>set [0, - 1, - 2]. - int (length (vertices ?st)) < n \<and> n \<le> int (length (vertices ?st))"
    by simp
  from import_nonpositive_index [OF ne f ns rng] show ?thesis
    by simp
qed

text \<open>A negative token beyond the length of the buffer raises \<open>IndexError\<close>: the
  buffer holds one vertex and the token is \<open>-1\<close>.\<close>

theorem import_negative_index_counterexample:
  "import_obj_str default_callback ''v 0 0 0\<newline>f -1 -1 -1\<newline>'' = Inl IndexError"
  by code_simp

section \<open>Import: faces\<close>

text \<open>
  Claim C5. Let the vertex and face lines of an OBJ text (all other lines are ignored) be
  a block \<open>vs1\<close> of vertex lines, a block \<open>fs1\<close> of face lines, a block \<open>vs2\<close>
  of vertex lines and a block \<open>fs2\<close> of face lines, the last three non-empty, and
  let each face line resolve against the vertex block before it. Then the import returns
  exactly two faces, with ids 1 and 2 in source order; the triangles of each face are
  those of its face block, numbered from 1, resolved against the vertices of its own
  vertex block, which are numbered from 1.
\<close>

theorem import_two_blocks:
  assumes c: "filter (\<lambda>carr. is_v_line carr \<or> is_f_line carr) (split (CHR 0x0A) content) =
                vs1 @ fs1 @ vs2 @ fs2"
    and v1: "list_all is_v_line vs1" and f1: "list_all is_f_line fs1"
    and v2: "list_all is_v_line vs2" and f2: "list_all is_f_line fs2"
    and ne: "fs1 \<noteq> []" "vs2 \<noteq> []" "fs2 \<noteq> []"
    and r1: "list_all (resolves (vertex_block vs1)) fs1"
    and r2: "list_all (resolves (vertex_block vs2)) fs2"
  shows "\<exists>tris1 tris2.
           import_obj_str default_callback content = Inr [Face tris1 1, Face tris2 2] \<and>
           triangle_block (vertex_block vs1) fs1 tris1 \<and>
           triangle_block (vertex_block vs2) fs2 tris2 \<and>
           map vertex_id (vertex_block vs1) = map int [1..<Suc (length vs1)] \<and>
           map vertex_id (vertex_block vs2) = map int [1..<Suc (length vs2)]"
proof -
  from import_two_blocks_lines [OF v1 f1 v2 f2 ne r1 r2] obtain tris1 tris2 where
    run: "run init_state (vs1 @ fs1 @ vs2 @ fs2) =
             Inr \<lparr>on_face = True, vertices = vertex_block vs2, triangles = tris2,
                  faces = [Face tris1 1], vert_idx = 1 + int (length vs2),
                  tri_idx = 1 + int (length fs2), face_idx = 2\<rparr>"
    and t1: "triangle_block (vertex_block vs1) fs1 tris1"
    and t2: "triangle_block (vertex_block vs2) fs2 tris2"
    by blast
  from t2 ne have "tris2 \<noteq> []"
    by (auto dest: triangle_block_length)
  have "run init_state (split (CHR 0x0A) content) = run init_state (vs1 @ fs1 @ vs2 @ fs2)"
    using run_filter [of init_state "split (CHR 0x0A) content"] by (simp only: c)
  with \<open>tris2 \<noteq> []\<close> have "import_obj_str default_callback content = Inr [Face tris1 1, Face tris2 2]"
    by (simp add: import_obj_str_def import_lines_def run final_faces_def default_callback_def)
  with t1 t2 show ?thesis
    by (auto simp: vertex_block_ids simp del: upt_Suc)
qed

theorem import_two_blocks_witness:
  "(\<exists>tris1 tris2.
      import_obj_str default_callback
        ''v 0 0 0\<newline>v 1 0 0\<newline>v 0 1 0\<newline>f 1 2 3\<newline>v 5 5 5\<newline>v 6 5 5\<newline>v 5 6 5\<newline>v 6 6 5\<newline>f 1 2 3\<newline>f 2 4 3\<newline>'' =
        Inr [Face tris1 1, Face tris2 2] \<and>
      triangle_block (vertex_block [''v 0 0 0'', ''v 1 0 0'', ''v 0 1 0'']) [''f 1 2 3''] tris1 \<and>
      triangle_block (vertex_block [''v 5 5 5'', ''v 6 5 5'', ''v 5 6 5'', ''v 6 6 5''])
        [''f 1 2 3'', ''f 2 4 3''] tris2) \<and>
   import_obj_str default_callback
     ''v 0 0 0\<newline>v 1 0 0\<newline>v 0 1 0\<newline>f 1 2 3\<newline>v 5 5 5\<newline>v 6 5 5\<newline>v 5 6 5\<newline>v 6 6 5\<newline>f 1 2 3\<newline>f 2 4 3\<newline>'' =
   Inr [Face [Triangle [Vertex [''0'', ''0'', ''0''] 1, Vertex [''1'', ''0'', ''0''] 2,
                        Vertex [''0'', ''1'', ''0''] 3] 1] 1,
        Face [Triangle [Vertex [''5'', ''5'', ''5''] 1, Vertex [''6'', ''5'', ''5''] 2,
                        Vertex [''5'', ''6'', ''5''] 3] 1,
              Triangle [Vertex [''6'', ''5'', ''5''] 2, Vertex [''6'', ''6'', ''5''] 4,
                        Vertex [''5'', ''6'', ''5''] 3] 2] 2]"
proof -
  let ?content = "''v 0 0 0\<newline>v 1 0 0\<newline>v 0 1 0\<newline>f 1 2 3\<newline>v 5 5 5\<newline>v 6 5 5\<newline>v 5 6 5\<newline>v 6 6 5\<newline>f 1 2 3\<newline>f 2 4 3\<newline>''"
  let ?vs1 = "[''v 0 0 0'', ''v 1 0 0'', ''v 0 1 0'']" and ?fs1 = "[''f 1 2 3'']"
  let ?vs2 = "[''v 5 5 5'', ''v 6 5 5'', ''v 5 6 5'', ''v 6 6 5'']"
  let ?fs2 = "[''f 1 2 3'', ''f 2 4 3'']"
  have c: "filter (\<lambda>carr. is_v_line carr \<or> is_f_line carr) (split (CHR 0x0A) ?content) =
             ?vs1 @ ?fs1 @ ?vs2 @ ?fs2"
    by code_simp
  have v1: "list_all is_v_line ?vs1" by code_simp
  have f1: "list_all is_f_line ?fs1" by code_simp
  have v2: "list_all is_v_line ?vs2" by code_simp
  have f2: "list_all is_f_line ?fs2" by code_simp
  have r1: "list_all (resolves (vertex_block ?vs1)) ?fs1" by code_simp
  have r2: "list_all (resolves (vertex_block ?vs2)) ?fs2" by code_simp
  have "\<exists>tris1 tris2.
      import_obj_str default_callback ?content = Inr [Face tris1 1, Face tris2 2] \<and>
      triangle_block (vertex_block ?vs1) ?fs1 tris1 \<and>
      triangle_block (vertex_block ?vs2) ?fs2 tris2"
    using import_two_blocks [OF c v1 f1 v2 f2 _ _ _ r1 r2] by blast
  moreover have "import_obj_str default_callback ?content =
     Inr [Face [Triangle [Vertex [''0'', ''0'', ''0''] 1, Vertex [''1'', ''0'', ''0''] 2,
                        Vertex [''0'', ''1'', ''0''] 3] 1] 1,
        Face [Triangle [Vertex [''5'', ''5'', ''5''] 1, Vertex [''6'', ''5'', ''5''] 2,
                        Vertex [''5'', ''6'', ''5''] 3] 1,
              Triangle [Vertex [''6'', ''5'', ''5''] 2, Vertex [''6'', ''6'', ''5''] 4,
                        Vertex [''5'', ''6'', ''5''] 3] 2] 2]"
    by code_simp
  ultimately show ?thesis by (intro conjI)
qed

text \<open>
  Claim C6. The text \<open>v 0 0 0 / v 1 0 0 / v 0 1 0 / f 1 2 3\<close> (each line ended by a
  line feed) imports to one face holding one triangle on the vertices \<open>(0,0,0)\<close>,
  \<open>(1,0,0)\<close>, \<open>(0,1,0)\<close> in that order. In general, when the last vertex or face
  line of a text is a face line that resolves, the import returns the faces finished so
  far followed by one last face, made of the pending triangles and the triangle of that
  line.
\<close>

theorem import_final_face:
  "import_obj_str default_callback ''v 0 0 0\<newline>v 1 0 0\<newline>v 0 1 0\<newline>f 1 2 3\<newline>'' =
     Inr [Face [Triangle [Vertex [''0'', ''0'', ''0''] 1, Vertex [''1'', ''0'', ''0''] 2,
                          Vertex [''0'', ''1'', ''0''] 3] 1] 1] \<and>
   (\<forall>content pre carr post st vs.
      split (CHR 0x0A) content = pre @ carr # post \<and>
      run init_state pre = Inr st \<and>
      is_f_line carr \<and>
      resolve (vertices st) (line_args carr) = Inr vs \<and>
      (\<forall>x\<in>set post. \<not> is_v_line x \<and> \<not> is_f_line x) \<longrightarrow>
      import_obj_str default_callback content =
        Inr (faces st @ [Face (triangles st @ [Triangle vs (tri_idx st)]) (face_idx st)]))"
proof (intro conjI allI impI)
  show "import_obj_str default_callback ''v 0 0 0\<newline>v 1 0 0\<newline>v 0 1 0\<newline>f 1 2 3\<newline>'' =
           Inr [Face [Triangle [Vertex [''0'', ''0'', ''0''] 1, Vertex [''1'', ''0'', ''0''] 2,
                                Vertex [''0'', ''1'', ''0''] 3] 1] 1]"
    by code_simp
next
  fix content pre carr post st vs
  assume h: "split (CHR 0x0A) content = pre @ carr # post \<and>
      run init_state pre = Inr st \<and>
      is_f_line carr \<and>
      resolve (vertices st) (line_args carr) = Inr vs \<and>
      (\<forall>x\<in>set post. \<not> is_v_line x \<and> \<not> is_f_line x)"
  then have c: "split (CHR 0x0A) content = pre @ carr # post"
    and pre: "run init_state pre = Inr st"
    and f: "is_f_line carr"
    and r: "resolve (vertices st) (line_args carr) = Inr vs"
    and post: "\<forall>x\<in>set post. \<not> is_v_line x \<and> \<not> is_f_line x"
    by simp_all
  let ?st' = "st\<lparr>on_face := True, triangles := triangles st @ [Triangle vs (tri_idx st)],
                 tri_idx := tri_idx st + 1\<rparr>"
  have "step st carr = Inr ?st'"
    by (simp add: step_f [OF f] on_f_def r)
  moreover have "run ?st' post = Inr ?st'"
    by (rule run_others [OF post])
  ultimately have "run init_state (pre @ carr # post) = Inr ?st'"
    by (simp add: run_append pre)
  then show "import_obj_str default_callback content =
           Inr (faces st @ [Face (triangles st @ [Triangle vs (tri_idx st)]) (face_idx st)])"
    by (simp add: import_obj_str_def import_lines_def c final_faces_def default_callback_def)
qed

theorem import_final_face_witness:
  "import_obj_str default_callback ''v 0 0 0\<newline>v 1 0 0\<newline>f 1 2 2'' =
     Inr ([] @ [Face ([] @ [Triangle [Vertex [''0'', ''0'', ''0''] 1, Vertex [''1'', ''0'', ''0''] 2,
                                      Vertex [''1'', ''0'', ''0''] 2] 1]) 1])"
proof -
  let ?st = "\<lparr>on_face = False,
     vertices = [Vertex [''0'', ''0'', ''0''] 1, Vertex [''1'', ''0'', ''0''] 2],
     triangles = [], faces = [], vert_idx = 3, tri_idx = 1, face_idx = 1\<rparr>"
  have c: "split (CHR 0x0A) ''v 0 0 0\<newline>v 1 0 0\<newline>f 1 2 2'' =
             [''v 0 0 0'', ''v 1 0 0''] @ ''f 1 2 2'' # []"
    by simp
  have pre: "run init_state [''v 0 0 0'', ''v 1 0 0''] = Inr ?st"
    by code_simp
  have f: "is_f_line ''f 1 2 2''" by code_simp
  have r: "resolve (vertices ?st) (line_args ''f 1 2 2'') =
             Inr [Vertex [''0'', ''0'', ''0''] 1, Vertex [''1'', ''0'', ''0''] 2,
                  Vertex [''1'', ''0'', ''0''] 2]"
    by code_simp
  have post: "\<forall>x\<in>set []. \<not> is_v_line x \<and> \<not> is_f_line x" by simp
  from import_final_face have
    "split (CHR 0x0A) ''v 0 0 0\<newline>v 1 0 0\<newline>f 1 2 2'' =
        [''v 0 0 0'', ''v 1 0 0''] @ ''f 1 2 2'' # [] \<and>
      run init_state [''v 0 0 0'', ''v 1 0 0''] = Inr ?st \<and>
      is_f_line ''f 1 2 2'' \<and>
      resolve (vertices ?st) (line_args ''f 1 2 2'') =
        Inr [Vertex [''0'', ''0'', ''0''] 1, Vertex [''1'', ''0'', ''0''] 2,
             Vertex [''1'', ''0'', ''0''] 2] \<and>
      (\<forall>x\<in>set []. \<not> is_v_line x \<and> \<not> is_f_line x) \<longrightarrow>
      import_obj_str default_callback ''v 0 0 0\<newline>v 1 0 0\<newline>f 1 2 2'' =
        Inr (faces ?st @ [Face (triangles ?st @
          [Triangle [Vertex [''0'', ''0'', ''0''] 1, Vertex [''1'', ''0'', ''0''] 2,
             Vertex [''1'', ''0'', ''0''] 2] (tri_idx ?st)]) (face_idx ?st)])"
    by blast
  with c pre f r post show ?thesis by simp
qed

section \<open>Import: whitespace\<close>

text \<open>
  Claim C8, as amended. The parser strips each line, splits it at every single space and
  strips each field. Two OBJ texts whose lines have the same fields (the stripped fields
  between single spaces, empty fields at the ends of a line apart) give the same result
  of the import: the same faces, or the same error. So whitespace added at the ends of a
  line, or whitespace other than spaces added next to a token, changes nothing.
  Separating the tokens of a line by several spaces or by tabs does change the fields, and
  the result: see the counterexample.
\<close>

theorem import_same_fields:
  assumes "list_all2 (\<lambda>carr carr'. fields carr' = fields carr)
             (split (CHR 0x0A) content) (split (CHR 0x0A) content')"
  shows "import_obj_str callback_func content' = import_obj_str callback_func content"
proof -
  from assms have "list_all2 (\<lambda>carr carr'. tokens carr' = tokens carr)
                     (split (CHR 0x0A) content) (split (CHR 0x0A) content')"
    by (simp only: tokens_fields)
  from run_same_tokens [OF this] show ?thesis
    by (simp add: import_obj_str_def import_lines_def)
qed

theorem import_same_fields_witness:
  "import_obj_str default_callback
     (''  v'' @ [CHR 0x09] @ '' 0 '' @ [CHR 0x09] @ ''0 0\<newline>v 1 0 0'' @ [CHR 0x09] @ ''\<newline>'' @
      [CHR 0x09] @ ''v 0 1 0 \<newline>f 1'' @ [CHR 0x09] @ '' 2 3'' @ [CHR 0x0D] @ ''\<newline>'') =
   import_obj_str default_callback ''v 0 0 0\<newline>v 1 0 0\<newline>v 0 1 0\<newline>f 1 2 3\<newline>''"
proof -
  have "list_all2 (\<lambda>carr carr'. fields carr' = fields carr)
          (split (CHR 0x0A) ''v 0 0 0\<newline>v 1 0 0\<newline>v 0 1 0\<newline>f 1 2 3\<newline>'')
          (split (CHR 0x0A)
             (''  v'' @ [CHR 0x09] @ '' 0 '' @ [CHR 0x09] @ ''0 0\<newline>v 1 0 0'' @ [CHR 0x09] @ ''\<newline>'' @
              [CHR 0x09] @ ''v 0 1 0 \<newline>f 1'' @ [CHR 0x09] @ '' 2 3'' @ [CHR 0x0D] @ ''\<newline>''))"
    by code_simp
  from import_same_fields [OF this] show ?thesis .
qed

text \<open>With two spaces between the tokens of the face line, \<open>split\<close> yields empty
  fields and \<open>int\<close> raises \<open>ValueError\<close>; with tabs between them the line is one
  field, which is neither \<open>v\<close> nor \<open>f\<close>, and the line is ignored.\<close>

theorem import_whitespace_separator_counterexample:
  "import_obj_str default_callback ''v 0 0 0\<newline>v 1 0 0\<newline>v 0 1 0\<newline>f 1 2 3\<newline>'' =
     Inr [Face [Triangle [Vertex [''0'', ''0'', ''0''] 1, Vertex [''1'', ''0'', ''0''] 2,
                          Vertex [''0'', ''1'', ''0''] 3] 1] 1] \<and>
   import_obj_str default_callback ''v 0 0 0\<newline>v 1 0 0\<newline>v 0 1 0\<newline>f  1  2  3\<newline>'' =
     Inl ValueError \<and>
   import_obj_str default_callback
     (''v 0 0 0\<newline>v 1 0 0\<newline>v 0 1 0\<newline>f'' @ [CHR 0x09] @ ''1'' @ [CHR 0x09] @ ''2'' @ [CHR 0x09] @ ''3\<newline>'') =
     Inr []"
  by code_simp

end
